theory Spec2Isabelle
  imports Main "HOL-Library.Word"
begin

section \<open>Bytes and C strings\<close>

text \<open>
  The source works on \<^verbatim>\<open>char\<close> and \<^verbatim>\<open>uint8_t\<close> buffers; a byte is a \<^typ>\<open>char\<close> here.
  A \<^verbatim>\<open>char*\<close> handed to \<^verbatim>\<open>strlen\<close>, \<^verbatim>\<open>snprintf("%s")\<close>, \<^verbatim>\<open>client->text\<close> or
  \<^verbatim>\<open>DCCEXParser::parse\<close> denotes the bytes up to, and without, the first zero byte.
\<close>

definition NUL :: char where
  "NUL = CHR 0x00"

definition c_str :: "char list \<Rightarrow> string" where
  "c_str mem = takeWhile (\<lambda>c. c \<noteq> NUL) mem"

definition strlen :: "char list \<Rightarrow> nat" where
  "strlen mem = length (c_str mem)"

section \<open>Configuration (WebSocketInterface.h)\<close>

definition WS_MAX_CLIENTS :: nat where
  "WS_MAX_CLIENTS = 5"

definition WS_COMMAND_BUFFER_SIZE :: nat where
  "WS_COMMAND_BUFFER_SIZE = 128"

section \<open>The transport's client handle\<close>

text \<open>
  \<^verbatim>\<open>AsyncWebSocketClient\<close> belongs to the transport library. The bridge reads its
  \<^verbatim>\<open>id()\<close> and \<^verbatim>\<open>status()\<close> and calls \<^verbatim>\<open>text\<close> and \<^verbatim>\<open>close\<close> on it; those calls are
  recorded as actions, in the order the code makes them.
\<close>

datatype AwsClientStatus = WS_DISCONNECTED | WS_CONNECTED | WS_DISCONNECTING

record AsyncWebSocketClient =
  client_id :: "32 word"
  status :: AwsClientStatus

datatype client_action = Text string | Close

section \<open>WebSocketPrint: the response stream\<close>

text \<open>\<^verbatim>\<open>char buffer[256]\<close>: \<^verbatim>\<open>sizeof(buffer)\<close> is 256.\<close>

definition sizeof_buffer :: nat where
  "sizeof_buffer = 256"

record WebSocketPrint =
  client :: "AsyncWebSocketClient option"
  buffer :: "char list"
  pos :: nat

text \<open>The constructor: \<^verbatim>\<open>client(c), pos(0)\<close>, and the buffer zeroed by \<^verbatim>\<open>memset\<close>.\<close>

definition new_WebSocketPrint :: "AsyncWebSocketClient option \<Rightarrow> WebSocketPrint" where
  "new_WebSocketPrint c = \<lparr>client = c, buffer = replicate sizeof_buffer NUL, pos = 0\<rparr>"

text \<open>\<^verbatim>\<open>client && client->status() == WS_CONNECTED\<close>\<close>

definition client_live :: "AsyncWebSocketClient option \<Rightarrow> bool" where
  "client_live c = (case c of None \<Rightarrow> False | Some cl \<Rightarrow> status cl = WS_CONNECTED)"

text \<open>
  \<^verbatim>\<open>flush()\<close>: the messages it sends are returned beside the new state.
  \<^verbatim>\<open>client->text(buffer)\<close> takes a \<^verbatim>\<open>char*\<close>, so the message is the C string at the
  start of the buffer.
\<close>

definition flush :: "WebSocketPrint \<Rightarrow> WebSocketPrint \<times> string list" where
  "flush w =
     (if pos w > 0 \<and> client_live (client w) then
        (let b = (buffer w)[pos w := NUL]
         in (w\<lparr>buffer := replicate sizeof_buffer NUL, pos := 0\<rparr>, [c_str b]))
      else (w, []))"

text \<open>\<^verbatim>\<open>write(uint8_t c)\<close>\<close>

definition write_byte :: "char \<Rightarrow> WebSocketPrint \<Rightarrow> WebSocketPrint \<times> string list" where
  "write_byte c w =
     (if pos w < sizeof_buffer - 1 then
        (let w1 = w\<lparr>buffer := (buffer w)[pos w := c], pos := pos w + 1\<rparr>
         in if c = CHR 0x0A \<or> pos w1 \<ge> sizeof_buffer - 2 then flush w1 else (w1, []))
      else (w, []))"

text \<open>\<^verbatim>\<open>write(const uint8_t* buf, size_t size)\<close>: the loop over the bytes.\<close>

fun write_block :: "char list \<Rightarrow> WebSocketPrint \<Rightarrow> WebSocketPrint \<times> string list" where
  "write_block [] w = (w, [])"
| "write_block (c # cs) w =
     (case write_byte c w of (w1, m1) \<Rightarrow>
        (case write_block cs w1 of (w2, m2) \<Rightarrow> (w2, m1 @ m2)))"

section \<open>handleCommand: trimming, bracketing, invoking the parser\<close>

text \<open>The whitespace of the two trimming loops: space, \<^verbatim>\<open>\n\<close> and \<^verbatim>\<open>\r\<close>.\<close>

definition is_space :: "char \<Rightarrow> bool" where
  "is_space c = (c = CHR '' '' \<or> c = CHR 0x0A \<or> c = CHR 0x0D)"

text \<open>
  The second loop,
  \<^verbatim>\<open>while (cmdLen > 0 && (cmd[cmdLen-1] is whitespace)) cmd[--cmdLen] = '\0';\<close>
  on the memory at \<^verbatim>\<open>cmd\<close>; it returns the memory and the final \<^verbatim>\<open>cmdLen\<close>.
\<close>

fun trim_trailing :: "char list \<Rightarrow> nat \<Rightarrow> char list \<times> nat" where
  "trim_trailing cmd 0 = (cmd, 0)"
| "trim_trailing cmd (Suc n) =
     (if is_space (cmd ! n) then trim_trailing (cmd[n := NUL]) n else (cmd, Suc n))"

text \<open>
  \<^verbatim>\<open>snprintf(dst, size, "<%s>", cmd)\<close> with the formatted text given: at most
  \<^verbatim>\<open>size - 1\<close> bytes of it are stored, then the terminator.
\<close>

definition snprintf :: "nat \<Rightarrow> string \<Rightarrow> char list" where
  "snprintf n formatted = take (n - 1) formatted @ [NUL]"

text \<open>
  \<^verbatim>\<open>DCCEXParser::parse\<close> is not part of this repository's sources. It is a parameter
  \<open>parse\<close>: the bytes the parser writes to the stream it is given, for the command
  (a C string) it is given. The client's status is taken as constant during one call.
  The result of \<open>handleCommand\<close> is the command handed to the parser (\<open>None\<close> when the
  function returns before calling it) and the messages sent to the client. The
  \<^verbatim>\<open>DIAG\<close> log lines are not modelled.
\<close>

definition handleCommand ::
  "(string \<Rightarrow> char list) \<Rightarrow> AsyncWebSocketClient \<Rightarrow> char list \<Rightarrow> string option \<times> string list" where
  "handleCommand parse cl data =
     (let len = length data in
      if len = 0 \<or> len > WS_COMMAND_BUFFER_SIZE then (None, [])
      else
        (let command = data @ [NUL];
             cmd0 = dropWhile is_space command;
             (cmd, cmdLen) = trim_trailing cmd0 (strlen cmd0)
         in if cmdLen = 0 then (None, [])
            else
              (let wsPrint = new_WebSocketPrint (Some cl);
                   arg = (if cmd ! 0 = CHR ''<'' then c_str cmd
                          else c_str (snprintf (WS_COMMAND_BUFFER_SIZE + 3)
                                        (''<'' @ c_str cmd @ ''>'')));
                   (w1, m1) = write_block (parse arg) wsPrint;
                   (w2, m2) = flush w1
               in (Some arg, m1 @ m2))))"

section \<open>The static state and the event handler\<close>

definition WS_PORT :: nat where
  "WS_PORT = 80"

record AsyncWebServer =
  port :: nat
  begun :: bool

record AsyncWebSocket =
  url :: string
  handler_registered :: bool

text \<open>
  The static members. A pointer is \<open>None\<close> when it is \<^verbatim>\<open>nullptr\<close>;
  \<open>lastCleanup\<close> is the function-local static of \<^verbatim>\<open>loop()\<close>
  (\<^verbatim>\<open>unsigned long\<close>, 32 bits on the ESP32).
\<close>

record WebSocketInterface =
  webServer :: "AsyncWebServer option"
  ws :: "AsyncWebSocket option"
  enabled :: bool
  clientCount :: "8 word"
  lastCleanup :: "32 word"

definition initial_state :: WebSocketInterface where
  "initial_state = \<lparr>webServer = None, ws = None, enabled = False, clientCount = 0, lastCleanup = 0\<rparr>"

text \<open>Arduino's \<^verbatim>\<open>String(unsigned)\<close>: the decimal digits.\<close>

definition digit_char :: "nat \<Rightarrow> char" where
  "digit_char d = ''0123456789'' ! d"

fun String_of_uint :: "nat \<Rightarrow> string" where
  "String_of_uint n =
     (if n < 10 then [digit_char n]
      else String_of_uint (n div 10) @ [digit_char (n mod 10)])"

declare String_of_uint.simps [simp del]

datatype AwsEventType = WS_EVT_CONNECT | WS_EVT_DISCONNECT | WS_EVT_DATA | WS_EVT_PONG | WS_EVT_ERROR

definition rejection_notice :: string where
  \<open>rejection_notice = ''{"error":"Max clients reached"}''\<close>

definition welcome_message :: "32 word \<Rightarrow> string" where
  \<open>welcome_message i = ''{"connected":true,"clientId":'' @ String_of_uint (unat i) @ ''}''\<close>

text \<open>
  \<^verbatim>\<open>onWebSocketEvent\<close>: the new static state and the calls made on the client, in order.
\<close>

definition onWebSocketEvent ::
  "(string \<Rightarrow> char list) \<Rightarrow> WebSocketInterface \<Rightarrow> AsyncWebSocketClient \<Rightarrow> AwsEventType \<Rightarrow> char list
     \<Rightarrow> WebSocketInterface \<times> client_action list" where
  "onWebSocketEvent parse s cl type data =
     (case type of
        WS_EVT_CONNECT \<Rightarrow>
          if unat (clientCount s) \<ge> WS_MAX_CLIENTS then (s, [Text rejection_notice, Close])
          else (s\<lparr>clientCount := clientCount s + 1\<rparr>, [Text (welcome_message (client_id cl))])
      | WS_EVT_DISCONNECT \<Rightarrow>
          ((if clientCount s > 0 then s\<lparr>clientCount := clientCount s - 1\<rparr> else s), [])
      | WS_EVT_DATA \<Rightarrow> (s, map Text (snd (handleCommand parse cl data)))
      | WS_EVT_PONG \<Rightarrow> (s, [])
      | WS_EVT_ERROR \<Rightarrow> (s, []))"

text \<open>An event as the transport delivers it, and the handler run over a sequence of them.\<close>

record ws_event =
  ev_client :: AsyncWebSocketClient
  ev_type :: AwsEventType
  ev_data :: "char list"

definition deliver :: "(string \<Rightarrow> char list) \<Rightarrow> WebSocketInterface \<Rightarrow> ws_event \<Rightarrow> WebSocketInterface" where
  "deliver parse s e = fst (onWebSocketEvent parse s (ev_client e) (ev_type e) (ev_data e))"

fun run :: "(string \<Rightarrow> char list) \<Rightarrow> WebSocketInterface \<Rightarrow> ws_event list \<Rightarrow> WebSocketInterface" where
  "run parse s [] = s"
| "run parse s (e # es) = run parse (deliver parse s e) es"

text \<open>The state at every point of a run: before the first event and after each one.\<close>

fun states :: "(string \<Rightarrow> char list) \<Rightarrow> WebSocketInterface \<Rightarrow> ws_event list \<Rightarrow> WebSocketInterface list" where
  "states parse s [] = [s]"
| "states parse s (e # es) = s # states parse (deliver parse s e) es"

section \<open>Lifecycle: setup, loop, broadcast\<close>

text \<open>
  \<^verbatim>\<open>setup()\<close>. The two SPIFFS calls are outside this repository; their results are the
  parameters \<open>spiffs_begin\<close> (the mount succeeded) and \<open>index_exists\<close>.
\<close>

definition ws_setup :: "bool \<Rightarrow> bool \<Rightarrow> WebSocketInterface \<Rightarrow> WebSocketInterface" where
  "ws_setup spiffs_begin index_exists s =
     (if \<not> spiffs_begin then s
      else s\<lparr>webServer := Some \<lparr>port = WS_PORT, begun = True\<rparr>,
              ws := Some \<lparr>url = ''/ws'', handler_registered = True\<rparr>,
              enabled := True\<rparr>)"

text \<open>
  \<^verbatim>\<open>loop()\<close> with the value of \<^verbatim>\<open>millis()\<close>, taken as the same in its two calls; the
  subtraction is that of \<^verbatim>\<open>unsigned long\<close>. The flag says whether \<^verbatim>\<open>ws->cleanupClients()\<close>
  was called.
\<close>

definition ws_loop :: "32 word \<Rightarrow> WebSocketInterface \<Rightarrow> WebSocketInterface \<times> bool" where
  "ws_loop millis s =
     (if \<not> enabled s \<or> ws s = None then (s, False)
      else if millis - lastCleanup s > 1000 then (s\<lparr>lastCleanup := millis\<rparr>, True)
      else (s, False))"

text \<open>\<^verbatim>\<open>broadcast(message)\<close>: the texts passed to \<^verbatim>\<open>ws->textAll\<close>.\<close>

definition ws_broadcast :: "char list \<Rightarrow> WebSocketInterface \<Rightarrow> string list" where
  "ws_broadcast message s =
     (if enabled s \<and> ws s \<noteq> None \<and> clientCount s > 0 then [c_str message] else [])"

definition isEnabled :: "WebSocketInterface \<Rightarrow> bool" where
  "isEnabled s = enabled s"

section \<open>Specification-level notions\<close>

text \<open>
  The trimming of the specification: leading and trailing whitespace removed from a byte
  sequence, with no regard to zero bytes. The code's two loops are compared with it below.
\<close>

definition trim_ws :: "string \<Rightarrow> string" where
  "trim_ws s = rev (dropWhile is_space (rev (dropWhile is_space s)))"

text \<open>
  Bookkeeping that the source does not keep: the clients that were admitted (the handler
  answered their connect event without closing them) and have had no disconnect event
  since. It is run beside the handler to compare the counter with it.
\<close>

fun admitted_connected ::
  "(string \<Rightarrow> char list) \<Rightarrow> WebSocketInterface \<Rightarrow> ws_event list \<Rightarrow> 32 word list \<Rightarrow> 32 word list" where
  "admitted_connected parse s [] A = A"
| "admitted_connected parse s (e # es) A =
     admitted_connected parse (deliver parse s e) es
       (case ev_type e of
          WS_EVT_CONNECT \<Rightarrow>
            if Close \<in> set (snd (onWebSocketEvent parse s (ev_client e) (ev_type e) (ev_data e)))
            then A else A @ [client_id (ev_client e)]
        | WS_EVT_DISCONNECT \<Rightarrow> removeAll (client_id (ev_client e)) A
        | _ \<Rightarrow> A)"

section \<open>Sample collaborators for the concrete instances\<close>

text \<open>
  A parser that writes nothing, a live client and a client that has disconnected.
\<close>

definition silent_parse :: "string \<Rightarrow> char list" where
  "silent_parse cmd = []"

definition sample_client :: AsyncWebSocketClient where
  "sample_client = \<lparr>client_id = 42, status = WS_CONNECTED\<rparr>"

definition gone_client :: AsyncWebSocketClient where
  "gone_client = \<lparr>client_id = 7, status = WS_DISCONNECTED\<rparr>"

definition connect_ev :: "32 word \<Rightarrow> ws_event" where
  "connect_ev i =
     \<lparr>ev_client = \<lparr>client_id = i, status = WS_CONNECTED\<rparr>, ev_type = WS_EVT_CONNECT, ev_data = []\<rparr>"

definition disconnect_ev :: "32 word \<Rightarrow> ws_event" where
  "disconnect_ev i =
     \<lparr>ev_client = \<lparr>client_id = i, status = WS_DISCONNECTED\<rparr>, ev_type = WS_EVT_DISCONNECT, ev_data = []\<rparr>"

text \<open>
  Five clients connect, a sixth is turned away at the ceiling, and the transport reports
  the disconnect of the sixth after its forced close.
\<close>

definition overflow_events :: "ws_event list" where
  "overflow_events = [connect_ev 1, connect_ev 2, connect_ev 3, connect_ev 4, connect_ev 5,
                      connect_ev 6, disconnect_ev 6]"

section \<open>Auxiliary notions for the proofs\<close>

text \<open>
  \<open>holding w p\<close>: the stream \<open>w\<close> has a live client and holds exactly the bytes \<open>p\<close>,
  the rest of its buffer being zero, with room left before the near-full flush.
\<close>

definition holding :: "WebSocketPrint \<Rightarrow> string \<Rightarrow> bool" where
  "holding w p =
     (buffer w = p @ replicate (sizeof_buffer - length p) NUL \<and> pos w = length p
      \<and> length p < sizeof_buffer - 2 \<and> client_live (client w))"

text \<open>The bracketing branch of \<open>handleCommand\<close> on the trimmed text.\<close>

definition bracketed :: "string \<Rightarrow> string" where
  "bracketed t = (if hd t = CHR ''<'' then t else ''<'' @ t @ ''>'')"

text \<open>The messages of one parser call: those sent while it writes, then the final flush.\<close>

definition reply :: "(string \<Rightarrow> char list) \<Rightarrow> AsyncWebSocketClient \<Rightarrow> string \<Rightarrow> string list" where
  "reply parse cl arg =
     snd (write_block (parse arg) (new_WebSocketPrint (Some cl)))
       @ snd (flush (fst (write_block (parse arg) (new_WebSocketPrint (Some cl)))))"

section \<open>Lemmas\<close>

subsection \<open>C strings and the response stream\<close>

lemma c_str_append_NUL: "c_str (xs @ NUL # ys) = c_str xs"
  by (induction xs) (simp_all add: c_str_def)

lemma c_str_NUL_free: "NUL \<notin> set xs \<Longrightarrow> c_str xs = xs"
  by (induction xs) (auto simp: c_str_def)

lemma holding_new: "client_live c \<Longrightarrow> holding (new_WebSocketPrint c) []"
  by (simp add: holding_def new_WebSocketPrint_def sizeof_buffer_def)

lemma update_pending:
  assumes "length p < n"
  shows "(p @ replicate (n - length p) z)[length p := c] = (p @ [c]) @ replicate (n - length (p @ [c])) z"
proof -
  from assms obtain k where k: "n - length p = Suc k" by (cases "n - length p") auto
  then have "n - length (p @ [c]) = k" by simp
  with k show ?thesis by (simp add: list_update_append)
qed

lemma flush_holding:
  assumes "buffer w = p @ replicate (sizeof_buffer - length p) NUL" "pos w = length p"
    "length p < sizeof_buffer" "client_live (client w)" "p \<noteq> []"
  shows "flush w = (new_WebSocketPrint (client w), [c_str p])"
proof -
  from assms(3) obtain k where k: "sizeof_buffer - length p = Suc k"
    by (cases "sizeof_buffer - length p") auto
  have "(buffer w)[pos w := NUL] = p @ NUL # replicate k NUL"
    using assms(1,2) k by (simp add: list_update_append)
  then show ?thesis
    using assms by (simp add: flush_def c_str_append_NUL new_WebSocketPrint_def)
qed

lemma flush_empty: "pos w = 0 \<Longrightarrow> flush w = (w, [])"
  by (simp add: flush_def)

lemma write_byte_holding:
  assumes "holding w p"
  shows "write_byte c w =
     (if c = CHR 0x0A \<or> length p + 1 \<ge> sizeof_buffer - 2
      then (new_WebSocketPrint (client w), [c_str (p @ [c])])
      else (w\<lparr>buffer := (buffer w)[pos w := c], pos := pos w + 1\<rparr>, []))"
    and "\<not> (c = CHR 0x0A \<or> length p + 1 \<ge> sizeof_buffer - 2) \<Longrightarrow>
       holding (w\<lparr>buffer := (buffer w)[pos w := c], pos := pos w + 1\<rparr>) (p @ [c])"
proof -
  let ?w1 = "w\<lparr>buffer := (buffer w)[pos w := c], pos := pos w + 1\<rparr>"
  from assms have b: "buffer w = p @ replicate (sizeof_buffer - length p) NUL"
    and q: "pos w = length p" and l: "length p < sizeof_buffer - 2" and live: "client_live (client w)"
    by (simp_all add: holding_def)
  have lt: "length p < sizeof_buffer" using l by simp
  have b1: "buffer ?w1 = (p @ [c]) @ replicate (sizeof_buffer - length (p @ [c])) NUL"
    using update_pending[OF lt, of NUL c] b q by simp
  have f: "flush ?w1 = (new_WebSocketPrint (client w), [c_str (p @ [c])])"
    using flush_holding[of ?w1 "p @ [c]"] b1 q l live by (simp add: sizeof_buffer_def)
  show "write_byte c w =
     (if c = CHR 0x0A \<or> length p + 1 \<ge> sizeof_buffer - 2
      then (new_WebSocketPrint (client w), [c_str (p @ [c])])
      else (?w1, []))"
    using f q l by (simp add: write_byte_def Let_def sizeof_buffer_def)
  show "\<not> (c = CHR 0x0A \<or> length p + 1 \<ge> sizeof_buffer - 2) \<Longrightarrow> holding ?w1 (p @ [c])"
    using b1 q live by (simp add: holding_def)
qed

lemma write_block_snoc:
  "write_block (bs @ [c]) w =
     (case write_block bs w of (w1, m1) \<Rightarrow>
        (case write_byte c w1 of (w2, m2) \<Rightarrow> (w2, m1 @ m2)))"
  by (induction bs arbitrary: w) (simp_all split: prod.splits)

lemma write_block_holding:
  assumes "holding w p" "NUL \<notin> set p" "NUL \<notin> set bs"
  shows "\<exists>p'. holding (fst (write_block bs w)) p' \<and> NUL \<notin> set p'
           \<and> concat (snd (write_block bs w)) @ p' = p @ bs
           \<and> client (fst (write_block bs w)) = client w"
  using assms
proof (induction bs arbitrary: w p)
  case Nil
  then show ?case by auto
next
  case (Cons c cs)
  show ?case
  proof (cases "c = CHR 0x0A \<or> length p + 1 \<ge> sizeof_buffer - 2")
    case True
    then have wb: "write_byte c w = (new_WebSocketPrint (client w), [p @ [c]])"
      using write_byte_holding(1)[OF Cons.prems(1), of c] Cons.prems(2,3)
      by (simp add: c_str_NUL_free)
    have live: "client_live (client w)" using Cons.prems(1) by (simp add: holding_def)
    from Cons.IH[OF holding_new[OF live]] Cons.prems(3)
    obtain p' where "holding (fst (write_block cs (new_WebSocketPrint (client w)))) p'"
      "NUL \<notin> set p'" "concat (snd (write_block cs (new_WebSocketPrint (client w)))) @ p' = cs"
      "client (fst (write_block cs (new_WebSocketPrint (client w)))) = client w"
      by (auto simp: new_WebSocketPrint_def)
    then show ?thesis using wb by (auto split: prod.splits)
  next
    case False
    let ?w1 = "w\<lparr>buffer := (buffer w)[pos w := c], pos := pos w + 1\<rparr>"
    have wb: "write_byte c w = (?w1, [])"
      using write_byte_holding(1)[OF Cons.prems(1), of c] False by simp
    have h1: "holding ?w1 (p @ [c])" using write_byte_holding(2)[OF Cons.prems(1) False] .
    from Cons.IH[OF h1] Cons.prems(2,3)
    obtain p' where "holding (fst (write_block cs ?w1)) p'"
      "NUL \<notin> set p'" "concat (snd (write_block cs ?w1)) @ p' = (p @ [c]) @ cs"
      "client (fst (write_block cs ?w1)) = client w"
      by auto
    then show ?thesis using wb by (auto split: prod.splits)
  qed
qed

subsection \<open>Trimming and handleCommand\<close>

lemma NUL_notin_c_str: "NUL \<notin> set (c_str xs)"
  by (induction xs) (auto simp: c_str_def)

lemma not_space_NUL: "\<not> is_space NUL"
  by (simp add: is_space_def NUL_def)

lemma dropWhile_space_NUL: "dropWhile is_space (xs @ [NUL]) = dropWhile is_space xs @ [NUL]"
  by (induction xs) (simp_all add: not_space_NUL)

lemma c_str_dropWhile: "c_str (dropWhile is_space xs) = dropWhile is_space (c_str xs)"
  by (induction xs) (auto simp: c_str_def not_space_NUL)

lemma c_str_split: "\<exists>rest. xs @ [NUL] = c_str xs @ NUL # rest"
  by (induction xs) (auto simp: c_str_def)

lemma trim_trailing_eq:
  "\<exists>rest'. trim_trailing (xs @ NUL # rest) (length xs)
      = (rev (dropWhile is_space (rev xs)) @ NUL # rest', length (rev (dropWhile is_space (rev xs))))"
proof (induction xs arbitrary: rest rule: rev_induct)
  case Nil
  then show ?case by simp
next
  case (snoc y ys)
  show ?case
  proof (cases "is_space y")
    case True
    have "((ys @ [y]) @ NUL # rest)[length ys := NUL] = ys @ NUL # NUL # rest"
      by (simp add: list_update_append)
    moreover have "((ys @ [y]) @ NUL # rest) ! length ys = y"
      by (simp add: nth_append)
    ultimately show ?thesis using True snoc.IH[of "NUL # rest"] by simp
  next
    case False
    moreover have "((ys @ [y]) @ NUL # rest) ! length ys = y"
      by (simp add: nth_append)
    ultimately show ?thesis by simp
  qed
qed

lemma trim_ws_length: "length (trim_ws xs) \<le> length xs"
proof -
  have "length (dropWhile is_space (rev (dropWhile is_space xs))) \<le> length (rev (dropWhile is_space xs))"
    by (rule length_dropWhile_le)
  also have "\<dots> \<le> length xs" by (simp add: length_dropWhile_le)
  finally show ?thesis by (simp add: trim_ws_def)
qed

lemma set_trim_ws: "set (trim_ws xs) \<subseteq> set xs"
proof
  fix x assume "x \<in> set (trim_ws xs)"
  then have "x \<in> set (dropWhile is_space (rev (dropWhile is_space xs)))"
    by (simp add: trim_ws_def)
  then have "x \<in> set (rev (dropWhile is_space xs))" by (rule set_dropWhileD)
  then have "x \<in> set (dropWhile is_space xs)" by simp
  then show "x \<in> set xs" by (rule set_dropWhileD)
qed

lemma c_str_length: "length (c_str xs) \<le> length xs"
  by (simp add: c_str_def length_takeWhile_le)

text \<open>The memory and length after both loops.\<close>

lemma trimmed_memory:
  "\<exists>rest. trim_trailing (dropWhile is_space (data @ [NUL])) (strlen (dropWhile is_space (data @ [NUL])))
     = (trim_ws (c_str data) @ NUL # rest, length (trim_ws (c_str data)))"
proof -
  define d where "d = dropWhile is_space data"
  define x where "x = c_str d"
  obtain rest where r: "d @ [NUL] = x @ NUL # rest" unfolding x_def using c_str_split by blast
  have "c_str (d @ [NUL]) = x"
    using c_str_append_NUL[of d "[]"] by (simp add: x_def)
  then have s: "strlen (d @ [NUL]) = length x" by (simp add: strlen_def)
  have t: "rev (dropWhile is_space (rev x)) = trim_ws (c_str data)"
    by (simp add: trim_ws_def c_str_dropWhile x_def d_def)
  have m: "dropWhile is_space (data @ [NUL]) = x @ NUL # rest"
    using r by (simp add: dropWhile_space_NUL d_def)
  from trim_trailing_eq[of x rest] obtain rest' where
    "trim_trailing (x @ NUL # rest) (length x)
      = (rev (dropWhile is_space (rev x)) @ NUL # rest', length (rev (dropWhile is_space (rev x))))"
    by blast
  moreover have "strlen (dropWhile is_space (data @ [NUL])) = length x"
    using s by (simp add: dropWhile_space_NUL d_def)
  ultimately have "trim_trailing (dropWhile is_space (data @ [NUL])) (strlen (dropWhile is_space (data @ [NUL])))
     = (trim_ws (c_str data) @ NUL # rest', length (trim_ws (c_str data)))"
    by (simp only: m t)
  then show ?thesis by blast
qed

lemma handleCommand_eq:
  "handleCommand parse cl data =
     (if data = [] \<or> length data > WS_COMMAND_BUFFER_SIZE \<or> trim_ws (c_str data) = [] then (None, [])
      else (Some (bracketed (trim_ws (c_str data))), reply parse cl (bracketed (trim_ws (c_str data)))))"
proof (cases "data = [] \<or> length data > WS_COMMAND_BUFFER_SIZE")
  case True
  then show ?thesis by (auto simp: handleCommand_def)
next
  case False
  define t where "t = trim_ws (c_str data)"
  obtain rest where tm:
    "trim_trailing (dropWhile is_space (data @ [NUL])) (strlen (dropWhile is_space (data @ [NUL])))
       = (t @ NUL # rest, length t)"
    unfolding t_def using trimmed_memory by blast
  show ?thesis
  proof (cases "t = []")
    case True
    then show ?thesis using False tm by (simp add: handleCommand_def t_def[symmetric])
  next
    case nonempty: False
    have nf: "NUL \<notin> set t"
      using set_trim_ws[of "c_str data"] NUL_notin_c_str[of data] by (auto simp: t_def)
    have cs: "c_str (t @ NUL # rest) = t"
      by (simp add: c_str_append_NUL c_str_NUL_free nf)
    have h: "(t @ NUL # rest) ! 0 = hd t"
      using nonempty by (cases t) simp_all
    have "length t \<le> WS_COMMAND_BUFFER_SIZE"
      using trim_ws_length[of "c_str data"] c_str_length[of data] False by (simp add: t_def)
    then have tk: "take (WS_COMMAND_BUFFER_SIZE + 3 - 1) (''<'' @ t @ ''>'') = ''<'' @ t @ ''>''"
      by simp
    have nf2: "NUL \<notin> set (''<'' @ t @ ''>'')" using nf by (simp add: NUL_def)
    have sn: "c_str (snprintf (WS_COMMAND_BUFFER_SIZE + 3) (''<'' @ t @ ''>'')) = ''<'' @ t @ ''>''"
      unfolding snprintf_def tk
      using c_str_append_NUL[of "''<'' @ t @ ''>''" "[]"] c_str_NUL_free[OF nf2] by simp
    have arg: "(if (t @ NUL # rest) ! 0 = CHR ''<'' then c_str (t @ NUL # rest)
                else c_str (snprintf (WS_COMMAND_BUFFER_SIZE + 3) (''<'' @ c_str (t @ NUL # rest) @ ''>'')))
             = bracketed t"
      unfolding cs h sn by (simp add: bracketed_def)
    have guard: "\<not> (length data = 0 \<or> length data > WS_COMMAND_BUFFER_SIZE)" using False by simp
    have ne: "length t \<noteq> 0" using nonempty by simp
    have "handleCommand parse cl data = (Some (bracketed t), reply parse cl (bracketed t))"
      unfolding handleCommand_def Let_def if_not_P[OF guard] tm prod.case if_not_P[OF ne] arg reply_def
      by (simp only: split_beta)
    then show ?thesis
      using False nonempty by (simp only: t_def[symmetric] if_False simp_thms)
  qed
qed

lemma last_dropWhile: "dropWhile P ys \<noteq> [] \<Longrightarrow> last (dropWhile P ys) = last ys"
  by (induction ys) (auto split: if_splits)

lemma trim_ws_ends:
  assumes "trim_ws s \<noteq> []"
  shows "\<not> is_space (hd (trim_ws s))" and "\<not> is_space (last (trim_ws s))"
proof -
  let ?d = "dropWhile is_space s"
  let ?r = "dropWhile is_space (rev ?d)"
  from assms have r: "?r \<noteq> []" by (simp add: trim_ws_def)
  have d: "?d \<noteq> []"
  proof
    assume "?d = []"
    then have "?r = []" by (simp only: rev.simps dropWhile.simps)
    with r show False by simp
  qed
  have "last (trim_ws s) = hd ?r" using r by (simp add: trim_ws_def last_rev)
  also have "\<not> is_space (hd ?r)" using r by (rule hd_dropWhile)
  finally show "\<not> is_space (last (trim_ws s))" .
  have "hd (trim_ws s) = last ?r" using r by (simp add: trim_ws_def hd_rev)
  also have "\<dots> = last (rev ?d)" using r by (rule last_dropWhile)
  also have "\<dots> = hd ?d" using d by (simp add: last_rev)
  also have "\<not> is_space (hd ?d)" using d by (rule hd_dropWhile)
  finally show "\<not> is_space (hd (trim_ws s))" .
qed

subsection \<open>The client counter\<close>

lemma unat_count_Suc:
  fixes c :: "8 word"
  assumes "unat c < WS_MAX_CLIENTS"
  shows "unat (c + 1) = unat c + 1"
proof -
  have "unat c + 1 < 2 ^ 8" using assms by (simp add: WS_MAX_CLIENTS_def)
  then show ?thesis by (simp add: unat_word_ariths)
qed

lemma unat_count_pred:
  fixes c :: "8 word"
  assumes "0 < c"
  shows "unat (c - 1) = unat c - 1"
  using assms by (simp add: unat_minus_one word_gt_0)

lemma count_pos_iff: "(0 < (c :: 8 word)) = (0 < unat c)"
  by (simp add: word_gt_0 unat_gt_0)

lemma deliver_count:
  "unat (clientCount (deliver parse s e)) =
     (case ev_type e of
        WS_EVT_CONNECT \<Rightarrow> if unat (clientCount s) < WS_MAX_CLIENTS then unat (clientCount s) + 1 else unat (clientCount s)
      | WS_EVT_DISCONNECT \<Rightarrow> unat (clientCount s) - 1
      | _ \<Rightarrow> unat (clientCount s))"
  by (cases "ev_type e")
     (auto simp: deliver_def onWebSocketEvent_def unat_count_Suc unat_count_pred count_pos_iff)

lemma deliver_bounded:
  "unat (clientCount s) \<le> WS_MAX_CLIENTS \<Longrightarrow> unat (clientCount (deliver parse s e)) \<le> WS_MAX_CLIENTS"
  by (cases "ev_type e") (auto simp: deliver_count)

lemma states_bounded:
  "unat (clientCount s) \<le> WS_MAX_CLIENTS \<Longrightarrow>
     list_all (\<lambda>s'. unat (clientCount s') \<le> WS_MAX_CLIENTS) (states parse s evs)"
  by (induction evs arbitrary: s) (simp_all add: deliver_bounded)

subsection \<open>Further lemmas on the stream, the trimming and the sample run\<close>

lemma write_block_quiet:
  assumes "holding w p" "CHR 0x0A \<notin> set bs" "length p + length bs < sizeof_buffer - 2"
  shows "snd (write_block bs w) = [] \<and> holding (fst (write_block bs w)) (p @ bs)"
  using assms
proof (induction bs arbitrary: w p)
  case Nil
  then show ?case by simp
next
  case (Cons c cs)
  let ?w1 = "w\<lparr>buffer := (buffer w)[pos w := c], pos := pos w + 1\<rparr>"
  have no: "\<not> (c = CHR 0x0A \<or> length p + 1 \<ge> sizeof_buffer - 2)"
    using Cons.prems(2,3) by auto
  have wb: "write_byte c w = (?w1, [])"
    using write_byte_holding(1)[OF Cons.prems(1), of c] no by simp
  have h1: "holding ?w1 (p @ [c])" using write_byte_holding(2)[OF Cons.prems(1) no] .
  have "snd (write_block cs ?w1) = [] \<and> holding (fst (write_block cs ?w1)) ((p @ [c]) @ cs)"
    using Cons.IH[OF h1] Cons.prems(2,3) by simp
  then show ?case using wb by (simp split: prod.splits)
qed

lemma flush_of_holding:
  assumes "holding w p" "p \<noteq> []"
  shows "flush w = (new_WebSocketPrint (client w), [c_str p])"
proof -
  from assms(1) have "length p < sizeof_buffer - 2" by (simp add: holding_def)
  then have "length p < sizeof_buffer" by arith
  with assms show ?thesis using flush_holding[of w p] by (simp add: holding_def)
qed

lemma flush_client: "client (fst (flush w)) = client w"
  by (simp add: flush_def Let_def)

lemma write_byte_client: "client (fst (write_byte c w)) = client w"
  by (simp add: write_byte_def Let_def flush_client)

lemma write_block_client: "client (fst (write_block bs w)) = client w"
proof (induction bs arbitrary: w)
  case Nil
  then show ?case by simp
next
  case (Cons c cs)
  show ?case
    using Cons.IH[of "fst (write_byte c w)"] write_byte_client[of c w]
    by (simp add: split_beta)
qed

lemma quiet_prefix:
  assumes "client_live c" "CHR 0x0A \<notin> set bs" "length bs < sizeof_buffer - 2"
  shows "snd (write_block (take n bs) (new_WebSocketPrint c)) = []"
proof -
  have "CHR 0x0A \<notin> set (take n bs)" using assms(2) by (auto dest: in_set_takeD)
  moreover have "length [] + length (take n bs) < sizeof_buffer - 2" using assms(3) by simp
  ultimately show ?thesis using write_block_quiet[OF holding_new[OF assms(1)]] by blast
qed

lemma full_buffer_flushes:
  assumes "client_live c" "CHR 0x0A \<notin> set p" "length p = sizeof_buffer - 3"
  shows "write_block (p @ [x]) (new_WebSocketPrint c) = (new_WebSocketPrint c, [c_str (p @ [x])])"
proof -
  have l: "length [] + length p < sizeof_buffer - 2" using assms(3) by (simp add: sizeof_buffer_def)
  have q: "snd (write_block p (new_WebSocketPrint c)) = []"
    and h: "holding (fst (write_block p (new_WebSocketPrint c))) p"
    using write_block_quiet[OF holding_new[OF assms(1)] assms(2) l] by simp_all
  have cl: "client (fst (write_block p (new_WebSocketPrint c))) = c"
    using write_block_client[of p "new_WebSocketPrint c"] by (simp add: new_WebSocketPrint_def)
  have "write_byte x (fst (write_block p (new_WebSocketPrint c))) = (new_WebSocketPrint c, [c_str (p @ [x])])"
    using write_byte_holding(1)[OF h, of x] assms(3) cl by (simp add: sizeof_buffer_def)
  then show ?thesis using q by (simp add: write_block_snoc split_beta)
qed

lemma holding_take: "holding w p \<Longrightarrow> take (pos w) (buffer w) = p"
  by (simp add: holding_def)

lemma write_byte_step:
  assumes "holding w p" "NUL \<notin> set p" "x \<noteq> NUL"
  shows "snd (write_byte x w) =
           (if x = CHR 0x0A \<or> pos w + 1 \<ge> sizeof_buffer - 2 then [take (pos w) (buffer w) @ [x]] else [])"
    and "pos (fst (write_byte x w)) =
           (if x = CHR 0x0A \<or> pos w + 1 \<ge> sizeof_buffer - 2 then 0 else pos w + 1)"
proof -
  have pw: "pos w = length p" using assms(1) by (simp add: holding_def)
  have nf: "NUL \<notin> set (p @ [x])" using assms(2,3) by auto
  note wb = write_byte_holding(1)[OF assms(1), of x]
  show "snd (write_byte x w) =
           (if x = CHR 0x0A \<or> pos w + 1 \<ge> sizeof_buffer - 2 then [take (pos w) (buffer w) @ [x]] else [])"
    using c_str_NUL_free[OF nf] holding_take[OF assms(1)] by (simp add: wb pw)
  show "pos (fst (write_byte x w)) =
           (if x = CHR 0x0A \<or> pos w + 1 \<ge> sizeof_buffer - 2 then 0 else pos w + 1)"
    by (simp add: wb pw new_WebSocketPrint_def)
qed

lemma flush_rest:
  assumes "holding w p" "NUL \<notin> set p"
  shows "concat (snd (flush w)) = p"
proof (cases "p = []")
  case True
  then have "pos w = 0" using assms(1) by (simp add: holding_def)
  then show ?thesis using True by (simp add: flush_empty)
next
  case False
  then show ?thesis using flush_of_holding[OF assms(1) False] c_str_NUL_free[OF assms(2)] by simp
qed

lemma dead_write_byte:
  "\<not> client_live (client w) \<Longrightarrow> snd (write_byte c w) = []"
  by (simp add: write_byte_def flush_def Let_def)

lemma dead_write_block:
  "\<not> client_live (client w) \<Longrightarrow> snd (write_block bs w) = []"
proof (induction bs arbitrary: w)
  case Nil
  then show ?case by simp
next
  case (Cons c cs)
  have "\<not> client_live (client (fst (write_byte c w)))"
    using Cons.prems by (simp add: write_byte_client)
  then show ?case using Cons.IH dead_write_byte[OF Cons.prems, of c] by (simp add: split_beta)
qed

lemma count_trace:
  "map (\<lambda>s. unat (clientCount s)) (states silent_parse initial_state overflow_events)
   = [0, 1, 2, 3, 4, 5, 5, 4]"
  by (simp add: overflow_events_def connect_ev_def disconnect_ev_def initial_state_def deliver_def
      onWebSocketEvent_def WS_MAX_CLIENTS_def)

lemma trim_ws_id:
  assumes "xs \<noteq> []" "\<not> is_space (hd xs)" "\<not> is_space (last xs)"
  shows "trim_ws xs = xs"
proof -
  have 1: "dropWhile is_space xs = xs" using assms(1,2) by (cases xs) simp_all
  have "rev xs \<noteq> []" "\<not> is_space (hd (rev xs))" using assms(1,3) by (simp_all add: hd_rev)
  then have 2: "dropWhile is_space (rev xs) = rev xs" by (cases "rev xs") simp_all
  show ?thesis by (simp add: trim_ws_def 1 2)
qed

section \<open>The claims\<close>

subsection \<open>C1\<close>

text \<open>
  Claim C1. For every sequence of events delivered to the handler, starting from a client
  count of at most \<open>WS_MAX_CLIENTS\<close> (the count starts at 0), the count is at most
  \<open>WS_MAX_CLIENTS\<close> at every point of the run; being unsigned it is never below 0. A connect
  event increments the count exactly when it is below the ceiling, a disconnect event
  decrements it exactly when it is above zero, and no other event changes it.
\<close>

theorem C1_count_within_ceiling:
  assumes "unat (clientCount s) \<le> WS_MAX_CLIENTS"
  shows "list_all (\<lambda>s'. unat (clientCount s') \<le> WS_MAX_CLIENTS) (states parse s evs)
    \<and> unat (clientCount (fst (onWebSocketEvent parse s cl WS_EVT_CONNECT d)))
        = (if unat (clientCount s) < WS_MAX_CLIENTS then unat (clientCount s) + 1 else unat (clientCount s))
    \<and> unat (clientCount (fst (onWebSocketEvent parse s cl WS_EVT_DISCONNECT d)))
        = (if 0 < unat (clientCount s) then unat (clientCount s) - 1 else unat (clientCount s))
    \<and> clientCount (fst (onWebSocketEvent parse s cl WS_EVT_DATA d)) = clientCount s
    \<and> clientCount (fst (onWebSocketEvent parse s cl WS_EVT_PONG d)) = clientCount s
    \<and> clientCount (fst (onWebSocketEvent parse s cl WS_EVT_ERROR d)) = clientCount s"
proof -
  have 1: "list_all (\<lambda>s'. unat (clientCount s') \<le> WS_MAX_CLIENTS) (states parse s evs)"
    using assms by (rule states_bounded)
  have 2: "unat (clientCount (fst (onWebSocketEvent parse s cl WS_EVT_CONNECT d)))
        = (if unat (clientCount s) < WS_MAX_CLIENTS then unat (clientCount s) + 1 else unat (clientCount s))"
    by (simp add: onWebSocketEvent_def unat_count_Suc)
  have 3: "unat (clientCount (fst (onWebSocketEvent parse s cl WS_EVT_DISCONNECT d)))
        = (if 0 < unat (clientCount s) then unat (clientCount s) - 1 else unat (clientCount s))"
    by (simp add: onWebSocketEvent_def unat_count_pred count_pos_iff)
  show ?thesis using 1 2 3 by (simp add: onWebSocketEvent_def)
qed

theorem C1_count_within_ceiling_witness:
  "unat (clientCount initial_state) \<le> WS_MAX_CLIENTS
   \<and> list_all (\<lambda>s'. unat (clientCount s') \<le> WS_MAX_CLIENTS)
        (states silent_parse initial_state overflow_events)
   \<and> map (\<lambda>s'. unat (clientCount s')) (states silent_parse initial_state overflow_events)
        = [0, 1, 2, 3, 4, 5, 5, 4]"
proof -
  have h: "unat (clientCount initial_state) \<le> WS_MAX_CLIENTS"
    by (simp add: initial_state_def)
  have t: "map (\<lambda>s'. unat (clientCount s')) (states silent_parse initial_state overflow_events)
        = [0, 1, 2, 3, 4, 5, 5, 4]"
    by (rule count_trace)
  show ?thesis
    using h t C1_count_within_ceiling[OF h, of silent_parse overflow_events sample_client "[]"]
    by blast
qed

subsection \<open>C2\<close>

text \<open>
  Claim C2. A connect event that arrives while the count equals \<open>WS_MAX_CLIENTS\<close> leaves
  the static state unchanged; the client is sent the text \<^verbatim>\<open>{"error":"Max clients reached"}\<close>
  and is then closed. A connect event that arrives while the count is below the ceiling
  increments the count, without wrap-around, and the client is sent the text
  \<^verbatim>\<open>{"connected":true,"clientId":<id>}\<close> with its id in decimal.
\<close>

theorem C2_admission:
  \<open>(unat (clientCount s) = WS_MAX_CLIENTS \<longrightarrow>
       onWebSocketEvent parse s cl WS_EVT_CONNECT d
         = (s, [Text ''{"error":"Max clients reached"}'', Close]))
   \<and> (unat (clientCount s) < WS_MAX_CLIENTS \<longrightarrow>
       onWebSocketEvent parse s cl WS_EVT_CONNECT d
         = (s\<lparr>clientCount := clientCount s + 1\<rparr>,
            [Text (''{"connected":true,"clientId":'' @ String_of_uint (unat (client_id cl)) @ ''}'')])
       \<and> unat (clientCount s + 1) = unat (clientCount s) + 1)\<close>
  by (simp add: onWebSocketEvent_def rejection_notice_def welcome_message_def unat_count_Suc)

theorem C2_admission_witness:
  \<open>unat (clientCount (initial_state\<lparr>clientCount := 5\<rparr>)) = WS_MAX_CLIENTS
   \<and> onWebSocketEvent silent_parse (initial_state\<lparr>clientCount := 5\<rparr>) sample_client WS_EVT_CONNECT []
        = (initial_state\<lparr>clientCount := 5\<rparr>, [Text ''{"error":"Max clients reached"}'', Close])
   \<and> unat (clientCount initial_state) < WS_MAX_CLIENTS
   \<and> onWebSocketEvent silent_parse initial_state sample_client WS_EVT_CONNECT []
        = (initial_state\<lparr>clientCount := 1\<rparr>, [Text ''{"connected":true,"clientId":42}''])\<close>
proof -
  have a: "unat (clientCount (initial_state\<lparr>clientCount := 5\<rparr>)) = WS_MAX_CLIENTS"
    by (simp add: WS_MAX_CLIENTS_def)
  have b: "unat (clientCount initial_state) < WS_MAX_CLIENTS"
    by (simp add: initial_state_def WS_MAX_CLIENTS_def)
  have i: "String_of_uint (unat (client_id sample_client)) = ''42''"
    by (simp add: sample_client_def String_of_uint.simps digit_char_def)
  have c: "initial_state\<lparr>clientCount := clientCount initial_state + 1\<rparr> = initial_state\<lparr>clientCount := 1\<rparr>"
    by (simp add: initial_state_def)
  note r = C2_admission[of "initial_state\<lparr>clientCount := 5\<rparr>" silent_parse sample_client "[]",
      THEN conjunct1, THEN mp, OF a]
  note w = C2_admission[of initial_state silent_parse sample_client "[]",
      THEN conjunct2, THEN mp, OF b, THEN conjunct1]
  have w': \<open>onWebSocketEvent silent_parse initial_state sample_client WS_EVT_CONNECT []
        = (initial_state\<lparr>clientCount := 1\<rparr>, [Text ''{"connected":true,"clientId":42}''])\<close>
    unfolding w i c by simp
  show ?thesis using a b r w' by (intro conjI)
qed

subsection \<open>C3\<close>

text \<open>
  Claim C3, as the code has it. Let \<open>T\<close> be the bytes of the payload before its first zero
  byte, with leading and trailing whitespace (space, \<^verbatim>\<open>\n\<close>, \<^verbatim>\<open>\r\<close>) removed. Whenever a command
  is handed to the parser, \<open>T\<close> is not empty and neither starts nor ends with whitespace; the
  command is \<open>T\<close> itself when \<open>T\<close> starts with \<^verbatim>\<open><\<close>, and \<^verbatim>\<open><\<close> \<open>T\<close> \<^verbatim>\<open>>\<close> otherwise. In both cases
  the command starts with \<^verbatim>\<open><\<close> and its last byte is not whitespace. That every command ends
  with \<^verbatim>\<open>>\<close> fails on the payload \<^verbatim>\<open><status\<close>, and that there is no whitespace next to the
  brackets on the inside fails on the payload \<^verbatim>\<open>< s >\<close>: both are passed through as they are.
\<close>

theorem C3_command_shape:
  assumes "fst (handleCommand parse cl data) = Some cmd"
  shows "hd cmd = CHR ''<'' \<and> \<not> is_space (last cmd)
       \<and> cmd = (if hd (trim_ws (c_str data)) = CHR ''<'' then trim_ws (c_str data)
                else ''<'' @ trim_ws (c_str data) @ ''>'')
       \<and> trim_ws (c_str data) \<noteq> []
       \<and> \<not> is_space (hd (trim_ws (c_str data))) \<and> \<not> is_space (last (trim_ws (c_str data)))"
proof -
  let ?t = "trim_ws (c_str data)"
  from assms have ne: "?t \<noteq> []" and c: "cmd = bracketed ?t"
    by (auto simp: handleCommand_eq split: if_splits)
  note e = trim_ws_ends[OF ne]
  show ?thesis
  proof (cases "hd ?t = CHR ''<''")
    case True
    then show ?thesis using c ne e by (simp add: bracketed_def)
  next
    case False
    then show ?thesis using c ne e by (simp add: bracketed_def is_space_def)
  qed
qed

theorem C3_command_shape_witness:
  "fst (handleCommand silent_parse sample_client '' status  '') = Some ''<status>''
   \<and> trim_ws (c_str '' status  '') = ''status''
   \<and> hd ''<status>'' = CHR ''<'' \<and> \<not> is_space (last ''<status>'')
   \<and> ''<status>'' = ''<'' @ trim_ws (c_str '' status  '') @ ''>''
   \<and> fst (handleCommand silent_parse sample_client [CHR ''a'', NUL, CHR ''b'']) = Some ''<a>''
   \<and> trim_ws (c_str [CHR ''a'', NUL, CHR ''b'']) = ''a''"
proof -
  have h: "fst (handleCommand silent_parse sample_client '' status  '') = Some ''<status>''"
    by code_simp
  have t: "trim_ws (c_str '' status  '') = ''status''" by code_simp
  have h2: "fst (handleCommand silent_parse sample_client [CHR ''a'', NUL, CHR ''b'']) = Some ''<a>''"
    by code_simp
  have t2: "trim_ws (c_str [CHR ''a'', NUL, CHR ''b'']) = ''a''" by code_simp
  note T = C3_command_shape[OF h]
  have a: "hd ''<status>'' = CHR ''<''" by (rule T[THEN conjunct1])
  have b: "\<not> is_space (last ''<status>'')" by (rule T[THEN conjunct2, THEN conjunct1])
  have e: "''<status>'' = ''<'' @ trim_ws (c_str '' status  '') @ ''>''" by (simp only: t append.simps)
  show ?thesis using h t a b e h2 t2 by (intro conjI)
qed

theorem C3_unclosed_bracket_counterexample:
  "fst (handleCommand silent_parse sample_client ''<status'') = Some ''<status''
   \<and> last ''<status'' \<noteq> CHR ''>''
   \<and> fst (handleCommand silent_parse sample_client ''< s >'') = Some ''< s >''
   \<and> is_space (''< s >'' ! 1) \<and> is_space (''< s >'' ! 3)"
  by code_simp

subsection \<open>C4\<close>

text \<open>
  Claim C4, as the code has it. \<^verbatim>\<open>setup()\<close> returns at a failed SPIFFS mount before it creates
  the server and the socket: the static state is left as it was, and from the initial state
  the bridge is enabled, and has a socket and a server, exactly when the mount succeeded.
  After a failed mount \<^verbatim>\<open>loop()\<close> does nothing and \<^verbatim>\<open>broadcast()\<close> sends nothing. Whether
  \<^verbatim>\<open>/index.html\<close> exists does not change the state that \<^verbatim>\<open>setup()\<close> produces. That the bridge
  starts after a failed mount as it does after a successful one fails.
\<close>

theorem C4_mount_failure_aborts_startup:
  "ws_setup False index_exists s = s
   \<and> isEnabled (ws_setup spiffs_begin index_exists initial_state) = spiffs_begin
   \<and> (ws (ws_setup spiffs_begin index_exists initial_state) \<noteq> None) = spiffs_begin
   \<and> (webServer (ws_setup spiffs_begin index_exists initial_state) \<noteq> None) = spiffs_begin
   \<and> ws_loop millis (ws_setup False index_exists initial_state) = (initial_state, False)
   \<and> ws_broadcast message (ws_setup False index_exists initial_state) = []
   \<and> ws_setup True index_exists s = ws_setup True True s"
  by (simp add: ws_setup_def isEnabled_def initial_state_def ws_loop_def ws_broadcast_def)

theorem C4_mount_failure_aborts_startup_witness:
  "ws_setup False True initial_state = initial_state
   \<and> \<not> isEnabled (ws_setup False True initial_state)
   \<and> isEnabled (ws_setup True False initial_state)
   \<and> ws_loop 5000 (ws_setup False True initial_state) = (initial_state, False)
   \<and> ws_broadcast ''TRACK POWER OFF'' (ws_setup False True initial_state) = []"
  using C4_mount_failure_aborts_startup[of True initial_state False 5000 "''TRACK POWER OFF''"]
    C4_mount_failure_aborts_startup[of True initial_state True 5000 "''TRACK POWER OFF''"]
    C4_mount_failure_aborts_startup[of False initial_state True 5000 "''TRACK POWER OFF''"]
  by simp

theorem C4_mount_failure_counterexample:
  "\<not> isEnabled (ws_setup False True initial_state)
   \<and> isEnabled (ws_setup True True initial_state)
   \<and> ws (ws_setup False True initial_state) = None
   \<and> ws_setup False True initial_state \<noteq> ws_setup True True initial_state"
  by (simp add: ws_setup_def isEnabled_def initial_state_def)

subsection \<open>C5\<close>

text \<open>
  Claim C5, as the code has it. For every non-empty byte sequence without \<^verbatim>\<open>\n\<close> and without
  zero byte that is shorter than \<^verbatim>\<open>sizeof(buffer) - 2\<close> = 254 bytes, writing it, or any prefix
  of it, to a fresh stream bound to a live client sends no message, and the \<^verbatim>\<open>flush()\<close> that
  follows sends exactly one message, equal to the written bytes. With fewer bytes than the
  256 of the buffer the claim fails: the 254th byte flushes by itself. It also fails on the
  empty sequence, for which \<^verbatim>\<open>flush()\<close> sends nothing, and on a sequence with a zero byte,
  where the message ends.
\<close>

theorem C5_buffered_until_flush:
  assumes "client_live c" and "bs \<noteq> []" and "CHR 0x0A \<notin> set bs" and "NUL \<notin> set bs"
    and "length bs < sizeof_buffer - 2"
  shows "snd (write_block (take n bs) (new_WebSocketPrint c)) = []
       \<and> snd (write_block bs (new_WebSocketPrint c)) = []
       \<and> snd (flush (fst (write_block bs (new_WebSocketPrint c)))) = [bs]"
proof -
  have q: "snd (write_block bs (new_WebSocketPrint c)) = []
      \<and> holding (fst (write_block bs (new_WebSocketPrint c))) ([] @ bs)"
    using write_block_quiet[OF holding_new[OF assms(1)], of bs] assms(3,5) by simp
  then have "flush (fst (write_block bs (new_WebSocketPrint c)))
      = (new_WebSocketPrint (client (fst (write_block bs (new_WebSocketPrint c)))), [c_str bs])"
    using flush_of_holding[of _ bs] assms(2) by simp
  then show ?thesis
    using q quiet_prefix[OF assms(1,3,5)] by (simp add: c_str_NUL_free[OF assms(4)])
qed

theorem C5_buffered_until_flush_witness:
  "client_live (Some sample_client) \<and> ''<p 1>'' \<noteq> [] \<and> CHR 0x0A \<notin> set ''<p 1>''
   \<and> NUL \<notin> set ''<p 1>'' \<and> length ''<p 1>'' < sizeof_buffer - 2
   \<and> snd (write_block (take 3 ''<p 1>'') (new_WebSocketPrint (Some sample_client))) = []
   \<and> snd (write_block ''<p 1>'' (new_WebSocketPrint (Some sample_client))) = []
   \<and> snd (flush (fst (write_block ''<p 1>'' (new_WebSocketPrint (Some sample_client))))) = [''<p 1>'']"
proof -
  have h1: "client_live (Some sample_client)" by (simp add: client_live_def sample_client_def)
  have h2: "''<p 1>'' \<noteq> []" by simp
  have h3: "CHR 0x0A \<notin> set ''<p 1>''" by simp
  have h4: "NUL \<notin> set ''<p 1>''" by (simp add: NUL_def)
  have h5: "length ''<p 1>'' < sizeof_buffer - 2" by (simp add: sizeof_buffer_def)
  show ?thesis
    using h1 h2 h3 h4 h5 C5_buffered_until_flush[OF h1 h2 h3 h4 h5, of 3] by blast
qed

theorem C5_counterexample:
  "CHR 0x0A \<notin> set (replicate 254 (CHR ''a'')) \<and> length (replicate 254 (CHR ''a'')) < sizeof_buffer
   \<and> snd (write_block (replicate 254 (CHR ''a'')) (new_WebSocketPrint (Some sample_client)))
        = [replicate 254 (CHR ''a'')]
   \<and> snd (flush (fst (write_block (replicate 254 (CHR ''a'')) (new_WebSocketPrint (Some sample_client))))) = []
   \<and> snd (flush (fst (write_block [] (new_WebSocketPrint (Some sample_client))))) = []
   \<and> CHR 0x0A \<notin> set [CHR ''a'', NUL, CHR ''b'']
   \<and> snd (flush (fst (write_block [CHR ''a'', NUL, CHR ''b''] (new_WebSocketPrint (Some sample_client)))))
        = [''a'']"
proof -
  have live: "client_live (Some sample_client)" by (simp add: client_live_def sample_client_def)
  have "replicate (Suc 253) (CHR ''a'') = replicate 253 (CHR ''a'') @ [CHR ''a'']"
    by (simp only: replicate_Suc replicate_append_same)
  moreover have "(254::nat) = Suc 253" by simp
  ultimately have r: "replicate 254 (CHR ''a'') = replicate 253 (CHR ''a'') @ [CHR ''a'']"
    by (simp only:)
  have nf: "NUL \<notin> set (replicate 253 (CHR ''a'') @ [CHR ''a''])" by (simp add: NUL_def)
  have w: "write_block (replicate 254 (CHR ''a'')) (new_WebSocketPrint (Some sample_client))
      = (new_WebSocketPrint (Some sample_client), [replicate 254 (CHR ''a'')])"
    unfolding r
    using full_buffer_flushes[OF live, of "replicate 253 (CHR ''a'')" "CHR ''a''"] c_str_NUL_free[OF nf]
    by (simp add: sizeof_buffer_def)
  have e: "snd (flush (new_WebSocketPrint (Some sample_client))) = []"
    by (simp add: flush_def new_WebSocketPrint_def)
  have n: "CHR 0x0A \<notin> set [CHR ''a'', NUL, CHR ''b'']" by (simp add: NUL_def)
  have "holding (fst (write_block [CHR ''a'', NUL, CHR ''b''] (new_WebSocketPrint (Some sample_client))))
          ([] @ [CHR ''a'', NUL, CHR ''b''])"
    using write_block_quiet[OF holding_new[OF live] n] by (simp add: sizeof_buffer_def)
  then have z: "snd (flush (fst (write_block [CHR ''a'', NUL, CHR ''b''] (new_WebSocketPrint (Some sample_client)))))
      = [''a'']"
    using flush_of_holding[of _ "[CHR ''a'', NUL, CHR ''b'']"] by (simp add: c_str_def NUL_def)
  show ?thesis using w e n z by (simp add: sizeof_buffer_def)
qed

subsection \<open>C6\<close>

text \<open>
  Claim C6, as the code has it. For every byte sequence without zero byte written to a fresh
  stream bound to a live client, the messages sent during the writes, followed by the message
  of the final \<^verbatim>\<open>flush()\<close>, concatenate to the bytes written. Writing one more byte \<open>x\<close> after
  the bytes \<open>xs\<close> sends one message, the pending bytes followed by \<open>x\<close>, exactly when \<open>x\<close> is
  \<^verbatim>\<open>\n\<close> or the cursor reaches \<^verbatim>\<open>sizeof(buffer) - 2\<close>, and the cursor is then 0; otherwise it
  sends nothing and the cursor advances by one. For a sequence with a zero byte the
  concatenation fails: each message ends at the first zero byte of the buffer.
\<close>

theorem C6_flush_points_and_concat:
  assumes "client_live c" and "NUL \<notin> set bs" and "NUL \<notin> set xs" and "x \<noteq> NUL"
  shows "concat (snd (write_block bs (new_WebSocketPrint c))
                  @ snd (flush (fst (write_block bs (new_WebSocketPrint c))))) = bs
    \<and> snd (write_block (xs @ [x]) (new_WebSocketPrint c)) =
        snd (write_block xs (new_WebSocketPrint c)) @
          (if x = CHR 0x0A \<or> pos (fst (write_block xs (new_WebSocketPrint c))) + 1 \<ge> sizeof_buffer - 2
           then [take (pos (fst (write_block xs (new_WebSocketPrint c))))
                      (buffer (fst (write_block xs (new_WebSocketPrint c)))) @ [x]]
           else [])
    \<and> pos (fst (write_block (xs @ [x]) (new_WebSocketPrint c))) =
          (if x = CHR 0x0A \<or> pos (fst (write_block xs (new_WebSocketPrint c))) + 1 \<ge> sizeof_buffer - 2
           then 0 else pos (fst (write_block xs (new_WebSocketPrint c))) + 1)"
proof -
  let ?w0 = "new_WebSocketPrint c"
  have h0: "holding ?w0 []" using assms(1) by (rule holding_new)
  obtain p where p: "holding (fst (write_block bs ?w0)) p" "NUL \<notin> set p"
      "concat (snd (write_block bs ?w0)) @ p = [] @ bs"
    using write_block_holding[OF h0 _ assms(2)] by auto
  have 1: "concat (snd (write_block bs ?w0) @ snd (flush (fst (write_block bs ?w0)))) = bs"
    using p(3) flush_rest[OF p(1,2)] by simp
  obtain q where q: "holding (fst (write_block xs ?w0)) q" "NUL \<notin> set q"
    using write_block_holding[OF h0 _ assms(3)] by auto
  note st = write_byte_step[OF q assms(4)]
  have 2: "snd (write_block (xs @ [x]) ?w0) =
        snd (write_block xs ?w0) @ snd (write_byte x (fst (write_block xs ?w0)))"
    and 3: "fst (write_block (xs @ [x]) ?w0) = fst (write_byte x (fst (write_block xs ?w0)))"
    by (simp_all add: write_block_snoc split_beta)
  show ?thesis unfolding 2 3 st using 1 by simp
qed

theorem C6_flush_points_and_concat_witness:
  "client_live (Some sample_client)
   \<and> NUL \<notin> set [CHR ''a'', CHR ''b'', CHR 0x0A, CHR ''c'', CHR ''d'']
   \<and> snd (write_block [CHR ''a'', CHR ''b'', CHR 0x0A, CHR ''c'', CHR ''d''] (new_WebSocketPrint (Some sample_client)))
        = [[CHR ''a'', CHR ''b'', CHR 0x0A]]
   \<and> snd (flush (fst (write_block [CHR ''a'', CHR ''b'', CHR 0x0A, CHR ''c'', CHR ''d'']
                          (new_WebSocketPrint (Some sample_client))))) = [''cd'']
   \<and> concat (snd (write_block [CHR ''a'', CHR ''b'', CHR 0x0A, CHR ''c'', CHR ''d''] (new_WebSocketPrint (Some sample_client)))
        @ snd (flush (fst (write_block [CHR ''a'', CHR ''b'', CHR 0x0A, CHR ''c'', CHR ''d'']
                          (new_WebSocketPrint (Some sample_client))))))
        = [CHR ''a'', CHR ''b'', CHR 0x0A, CHR ''c'', CHR ''d'']
   \<and> snd (write_block (''ab'' @ [CHR 0x0A]) (new_WebSocketPrint (Some sample_client)))
        = snd (write_block ''ab'' (new_WebSocketPrint (Some sample_client))) @ [''ab'' @ [CHR 0x0A]]
   \<and> pos (fst (write_block (''ab'' @ [CHR 0x0A]) (new_WebSocketPrint (Some sample_client)))) = 0"
proof -
  have live: "client_live (Some sample_client)" by (simp add: client_live_def sample_client_def)
  have nf: "NUL \<notin> set [CHR ''a'', CHR ''b'', CHR 0x0A, CHR ''c'', CHR ''d'']" by (simp add: NUL_def)
  have nx: "NUL \<notin> set ''ab''" by (simp add: NUL_def)
  have x: "CHR 0x0A \<noteq> NUL" by (simp add: NUL_def)
  note T = C6_flush_points_and_concat[OF live nf nx x]
  have m: "snd (write_block [CHR ''a'', CHR ''b'', CHR 0x0A, CHR ''c'', CHR ''d''] (new_WebSocketPrint (Some sample_client)))
        = [[CHR ''a'', CHR ''b'', CHR 0x0A]]" by code_simp
  have f: "snd (flush (fst (write_block [CHR ''a'', CHR ''b'', CHR 0x0A, CHR ''c'', CHR ''d'']
                          (new_WebSocketPrint (Some sample_client))))) = [''cd'']" by code_simp
  have tk: "take (pos (fst (write_block ''ab'' (new_WebSocketPrint (Some sample_client)))))
                 (buffer (fst (write_block ''ab'' (new_WebSocketPrint (Some sample_client))))) = ''ab''"
    by code_simp
  have s: "snd (write_block (''ab'' @ [CHR 0x0A]) (new_WebSocketPrint (Some sample_client)))
        = snd (write_block ''ab'' (new_WebSocketPrint (Some sample_client))) @ [''ab'' @ [CHR 0x0A]]"
    using T[THEN conjunct2, THEN conjunct1] by (simp only: tk simp_thms if_True)
  have p: "pos (fst (write_block (''ab'' @ [CHR 0x0A]) (new_WebSocketPrint (Some sample_client)))) = 0"
    using T[THEN conjunct2, THEN conjunct2] by (simp only: simp_thms if_True)
  show ?thesis using live nf m f T[THEN conjunct1] s p by (intro conjI)
qed

theorem C6_zero_byte_counterexample:
  "snd (write_block [CHR ''a'', NUL, CHR ''b''] (new_WebSocketPrint (Some sample_client))) = []
   \<and> snd (flush (fst (write_block [CHR ''a'', NUL, CHR ''b''] (new_WebSocketPrint (Some sample_client))))) = [''a'']
   \<and> concat (snd (write_block [CHR ''a'', NUL, CHR ''b''] (new_WebSocketPrint (Some sample_client)))
        @ snd (flush (fst (write_block [CHR ''a'', NUL, CHR ''b''] (new_WebSocketPrint (Some sample_client))))))
       \<noteq> [CHR ''a'', NUL, CHR ''b'']"
  by code_simp

subsection \<open>C7\<close>

text \<open>
  Claim C7, as the code has it. For every payload without zero byte and of at most
  \<open>WS_COMMAND_BUFFER_SIZE\<close> bytes whose trimmed text \<open>X\<close> is not empty, the parser is handed
  \<open>X\<close> when \<open>X\<close> starts with \<^verbatim>\<open><\<close>, and \<^verbatim>\<open><\<close> \<open>X\<close> \<^verbatim>\<open>>\<close> otherwise. A payload with no leading and
  no trailing whitespace is its own trimmed text. For a payload with a zero byte the claim
  fails: the command ends at that byte.
\<close>

theorem C7_bracketing:
  assumes "NUL \<notin> set data" and "length data \<le> WS_COMMAND_BUFFER_SIZE" and "trim_ws data \<noteq> []"
  shows "fst (handleCommand parse cl data)
           = Some (if hd (trim_ws data) = CHR ''<'' then trim_ws data else ''<'' @ trim_ws data @ ''>'')
       \<and> (\<not> is_space (hd data) \<and> \<not> is_space (last data) \<longrightarrow> trim_ws data = data)"
proof -
  have ne: "data \<noteq> []" using assms(3) by (auto simp: trim_ws_def)
  have c: "c_str data = data" using assms(1) by (rule c_str_NUL_free)
  have "fst (handleCommand parse cl data) = Some (bracketed (trim_ws data))"
    using ne assms(2,3) by (simp add: handleCommand_eq c)
  then show ?thesis using trim_ws_id[OF ne] by (simp add: bracketed_def)
qed

theorem C7_bracketing_witness:
  "NUL \<notin> set ''status'' \<and> length ''status'' \<le> WS_COMMAND_BUFFER_SIZE \<and> trim_ws ''status'' = ''status''
   \<and> fst (handleCommand silent_parse sample_client ''status'') = Some ''<status>''
   \<and> NUL \<notin> set '' <t 3 1>  '' \<and> trim_ws '' <t 3 1>  '' = ''<t 3 1>''
   \<and> fst (handleCommand silent_parse sample_client '' <t 3 1>  '') = Some ''<t 3 1>''"
proof -
  have a1: "NUL \<notin> set ''status''" by (simp add: NUL_def)
  have a2: "length ''status'' \<le> WS_COMMAND_BUFFER_SIZE" by (simp add: WS_COMMAND_BUFFER_SIZE_def)
  have a3: "trim_ws ''status'' = ''status''" by code_simp
  have a4: "trim_ws ''status'' \<noteq> []" by (simp add: a3)
  have b1: "NUL \<notin> set '' <t 3 1>  ''" by (simp add: NUL_def)
  have b2: "length '' <t 3 1>  '' \<le> WS_COMMAND_BUFFER_SIZE" by (simp add: WS_COMMAND_BUFFER_SIZE_def)
  have b3: "trim_ws '' <t 3 1>  '' = ''<t 3 1>''" by code_simp
  have b4: "trim_ws '' <t 3 1>  '' \<noteq> []" by (simp add: b3)
  have r1: "fst (handleCommand silent_parse sample_client ''status'') = Some ''<status>''"
    using C7_bracketing[OF a1 a2 a4, of silent_parse sample_client] by (simp add: a3)
  have r2: "fst (handleCommand silent_parse sample_client '' <t 3 1>  '') = Some ''<t 3 1>''"
    using C7_bracketing[OF b1 b2 b4, of silent_parse sample_client] by (simp add: b3)
  show ?thesis using a1 a2 a3 b1 b3 r1 r2 by (intro conjI)
qed

theorem C7_zero_byte_counterexample:
  "[CHR ''a'', NUL, CHR ''b''] \<noteq> [] \<and> length [CHR ''a'', NUL, CHR ''b''] \<le> WS_COMMAND_BUFFER_SIZE
   \<and> trim_ws [CHR ''a'', NUL, CHR ''b''] = [CHR ''a'', NUL, CHR ''b'']
   \<and> hd [CHR ''a'', NUL, CHR ''b''] \<noteq> CHR ''<''
   \<and> fst (handleCommand silent_parse sample_client [CHR ''a'', NUL, CHR ''b'']) = Some ''<a>''
   \<and> ''<a>'' \<noteq> ''<'' @ [CHR ''a'', NUL, CHR ''b''] @ ''>''"
  by code_simp

subsection \<open>C8\<close>

text \<open>
  Claim C8, as the code has it. \<open>handleCommand\<close> returns without calling the parser exactly
  when the payload is empty, is longer than \<open>WS_COMMAND_BUFFER_SIZE\<close>, or the bytes before its
  first zero byte trim to the empty string; for a payload without zero byte that is: the
  payload trims to the empty string. The frame is then dropped: no message is sent and the
  static state is unchanged. A payload of exactly \<open>WS_COMMAND_BUFFER_SIZE\<close> bytes whose trimmed
  text is not empty is handed to the parser. The claim as stated fails on a payload that
  starts with a zero byte: it is dropped, though it is neither empty, nor too long, nor
  trimmed to the empty string.
\<close>

theorem C8_dropped_frames:
  "(fst (handleCommand parse cl data) = None)
      = (data = [] \<or> WS_COMMAND_BUFFER_SIZE < length data \<or> trim_ws (c_str data) = [])
   \<and> (fst (handleCommand parse cl data) = None \<longrightarrow>
        snd (handleCommand parse cl data) = []
        \<and> onWebSocketEvent parse s cl WS_EVT_DATA data = (s, []))
   \<and> (NUL \<notin> set data \<longrightarrow> c_str data = data)
   \<and> (length data = WS_COMMAND_BUFFER_SIZE \<and> trim_ws (c_str data) \<noteq> [] \<longrightarrow>
        fst (handleCommand parse cl data) \<noteq> None)"
proof -
  have 1: "(fst (handleCommand parse cl data) = None)
      = (data = [] \<or> WS_COMMAND_BUFFER_SIZE < length data \<or> trim_ws (c_str data) = [])"
    by (simp add: handleCommand_eq)
  have 2: "fst (handleCommand parse cl data) = None \<longrightarrow>
        snd (handleCommand parse cl data) = []
        \<and> onWebSocketEvent parse s cl WS_EVT_DATA data = (s, [])"
    by (simp add: handleCommand_eq onWebSocketEvent_def)
  have 3: "NUL \<notin> set data \<longrightarrow> c_str data = data" by (simp add: c_str_NUL_free)
  have 4: "length data = WS_COMMAND_BUFFER_SIZE \<and> trim_ws (c_str data) \<noteq> [] \<longrightarrow>
        fst (handleCommand parse cl data) \<noteq> None"
    unfolding 1 by (auto simp: WS_COMMAND_BUFFER_SIZE_def)
  show ?thesis using 1 2 3 4 by (intro conjI)
qed

theorem C8_dropped_frames_witness:
  "trim_ws (c_str ''   '') = []
   \<and> handleCommand silent_parse sample_client ''   '' = (None, [])
   \<and> onWebSocketEvent silent_parse initial_state sample_client WS_EVT_DATA ''   '' = (initial_state, [])
   \<and> length (replicate 128 (CHR ''a'')) = WS_COMMAND_BUFFER_SIZE
   \<and> trim_ws (c_str (replicate 128 (CHR ''a''))) \<noteq> []
   \<and> fst (handleCommand silent_parse sample_client (replicate 128 (CHR ''a''))) \<noteq> None"
proof -
  have a: "trim_ws (c_str ''   '') = []" by code_simp
  note A = C8_dropped_frames[of silent_parse sample_client "''   ''" initial_state]
  have n: "fst (handleCommand silent_parse sample_client ''   '') = None"
    using A[THEN conjunct1] a by simp
  have r: "snd (handleCommand silent_parse sample_client ''   '') = []"
     "onWebSocketEvent silent_parse initial_state sample_client WS_EVT_DATA ''   '' = (initial_state, [])"
    using A[THEN conjunct2, THEN conjunct1] n by simp_all
  have r': "handleCommand silent_parse sample_client ''   '' = (None, [])"
    using n r(1) by (simp add: prod_eq_iff)
  have l: "length (replicate 128 (CHR ''a'')) = WS_COMMAND_BUFFER_SIZE"
    by (simp add: WS_COMMAND_BUFFER_SIZE_def)
  have nf: "NUL \<notin> set (replicate 128 (CHR ''a''))" by (simp add: NUL_def)
  have "trim_ws (replicate 128 (CHR ''a'')) = replicate 128 (CHR ''a'')"
    by (rule trim_ws_id) (simp_all add: is_space_def)
  then have t: "trim_ws (c_str (replicate 128 (CHR ''a''))) \<noteq> []"
    by (simp add: c_str_NUL_free[OF nf])
  note B = C8_dropped_frames[of silent_parse sample_client "replicate 128 (CHR ''a'')" initial_state]
  have s: "fst (handleCommand silent_parse sample_client (replicate 128 (CHR ''a''))) \<noteq> None"
    using B[THEN conjunct2, THEN conjunct2, THEN conjunct2] l t by blast
  show ?thesis using a r' r(2) l t s by (intro conjI)
qed

theorem C8_zero_byte_counterexample:
  "[NUL] \<noteq> [] \<and> \<not> WS_COMMAND_BUFFER_SIZE < length [NUL] \<and> trim_ws [NUL] \<noteq> []
   \<and> handleCommand silent_parse sample_client [NUL] = (None, [])"
  by code_simp

subsection \<open>C9\<close>

text \<open>
  Claim C9. \<^verbatim>\<open>flush()\<close> on a stream whose client is null or not connected changes nothing and
  sends nothing; whatever is written to such a stream, neither the writes nor a later
  \<^verbatim>\<open>flush()\<close> send a message, so the buffered bytes are never delivered. \<^verbatim>\<open>flush()\<close> on a
  stream with an empty buffer changes nothing and sends nothing.
\<close>

theorem C9_flush_noop:
  "(\<not> client_live (client w) \<longrightarrow>
        flush w = (w, []) \<and> snd (write_block bs w) = [] \<and> snd (flush (fst (write_block bs w))) = [])
   \<and> (pos w = 0 \<longrightarrow> flush w = (w, []))"
proof -
  have "\<not> client_live (client (fst (write_block bs w)))" if "\<not> client_live (client w)"
    using that by (simp add: write_block_client)
  then show ?thesis by (simp add: flush_def dead_write_block)
qed

theorem C9_flush_noop_witness:
  "\<not> client_live (client (fst (write_block ''abc'' (new_WebSocketPrint (Some gone_client)))))
   \<and> flush (fst (write_block ''abc'' (new_WebSocketPrint (Some gone_client))))
       = (fst (write_block ''abc'' (new_WebSocketPrint (Some gone_client))), [])
   \<and> pos (fst (write_block ''abc'' (new_WebSocketPrint (Some gone_client)))) = 3
   \<and> pos (new_WebSocketPrint (Some sample_client)) = 0
   \<and> flush (new_WebSocketPrint (Some sample_client)) = (new_WebSocketPrint (Some sample_client), [])"
proof -
  have d: "\<not> client_live (client (fst (write_block ''abc'' (new_WebSocketPrint (Some gone_client)))))"
    unfolding write_block_client
    by (simp add: new_WebSocketPrint_def client_live_def gone_client_def)
  have p: "pos (fst (write_block ''abc'' (new_WebSocketPrint (Some gone_client)))) = 3"
    by (simp add: write_byte_def flush_def new_WebSocketPrint_def client_live_def gone_client_def
        sizeof_buffer_def Let_def)
  have z: "pos (new_WebSocketPrint (Some sample_client)) = 0" by (simp add: new_WebSocketPrint_def)
  show ?thesis
    using d p z
      C9_flush_noop[of "fst (write_block ''abc'' (new_WebSocketPrint (Some gone_client)))" "[]"]
      C9_flush_noop[of "new_WebSocketPrint (Some sample_client)" "[]"]
    by blast
qed

subsection \<open>C10\<close>

text \<open>
  Claim C10. A disconnect event decrements the count whenever it is positive, whichever
  client it is for. With five clients admitted, a sixth turned away at the ceiling and the
  disconnect of the sixth reported after its forced close, the count is 4 while the five
  admitted clients are still connected: one less than their number.
\<close>

theorem C10_unadmitted_disconnect_decrements:
  "clientCount (fst (onWebSocketEvent parse s cl WS_EVT_DISCONNECT d))
      = (if 0 < clientCount s then clientCount s - 1 else clientCount s)
   \<and> unat (clientCount (run silent_parse initial_state overflow_events)) = 4
   \<and> admitted_connected silent_parse initial_state overflow_events [] = [1, 2, 3, 4, 5]
   \<and> unat (clientCount (run silent_parse initial_state overflow_events)) + 1
        = length (admitted_connected silent_parse initial_state overflow_events [])"
proof -
  have 1: "clientCount (fst (onWebSocketEvent parse s cl WS_EVT_DISCONNECT d))
      = (if 0 < clientCount s then clientCount s - 1 else clientCount s)"
    by (simp add: onWebSocketEvent_def)
  have 2: "unat (clientCount (run silent_parse initial_state overflow_events)) = 4"
    by (simp add: overflow_events_def connect_ev_def disconnect_ev_def initial_state_def deliver_def
      onWebSocketEvent_def WS_MAX_CLIENTS_def)
  have 3: "admitted_connected silent_parse initial_state overflow_events [] = [1, 2, 3, 4, 5]"
    by (simp add: overflow_events_def connect_ev_def disconnect_ev_def initial_state_def deliver_def
      onWebSocketEvent_def WS_MAX_CLIENTS_def)
  show ?thesis using 1 2 3 by simp
qed

theorem C10_unadmitted_disconnect_decrements_witness:
  "clientCount (fst (onWebSocketEvent silent_parse (initial_state\<lparr>clientCount := 5\<rparr>)
                       \<lparr>client_id = 6, status = WS_DISCONNECTED\<rparr> WS_EVT_DISCONNECT [])) = 4
   \<and> unat (clientCount (run silent_parse initial_state overflow_events)) = 4
   \<and> length (admitted_connected silent_parse initial_state overflow_events []) = 5"
  using C10_unadmitted_disconnect_decrements[of silent_parse "initial_state\<lparr>clientCount := 5\<rparr>"
      "\<lparr>client_id = 6, status = WS_DISCONNECTED\<rparr>" "[]"]
  by simp

end
